theory Spec2Isabelle
  imports Main
begin

section \<open>Data model\<close>

text \<open>
  A spreadsheet cell as pandas hands it to the scripts: a number, a text, or the missing
  value (NaN). Numbers are exact integers here; floating-point rounding is not modelled.
\<close>

datatype cell = Num int | Str string | NaN

text \<open>The exceptions the two scripts can raise, as values.\<close>

datatype error =
    KeyError "string list"
  | IndexError
  | TypeError
  | ValueError string
  | FileNotFoundError string
  | ReadError
  | WriteError

text \<open>
  The input DataFrame: the header (column labels, in sheet order) and one record per sheet
  row. A record gives the cell under every column label; what it gives for a label outside
  \<open>columns\<close> is never read by the functions below without a membership test or an error.
  Column labels are texts; \<open>read_excel\<close> renames a repeated header, so a record has one
  cell per label.
\<close>

record dataframe =
  columns :: "string list"
  rows :: "(string \<Rightarrow> cell) list"

text \<open>
  The output DataFrame of the category script: the row labels (\<open>index\<close>) and the
  columns in order, each with one cell per row label.
\<close>

record frame =
  index :: "string list"
  cols :: "(string \<times> cell list) list"

text \<open>What the category script prints while it transforms (its advisory messages).\<close>

datatype event = NotFound string | Processed string | DerivedSkipped

section \<open>generate\_category\_report.py\<close>

definition metrics :: "string list" where
  "metrics =
    [''[TopLine_Revenue]'', ''[Base_usuarios]'', ''[v_Activaciones_Revenue]'',
     ''[v__Activaciones]'', ''[v_Renovaciones_Revenue]'', ''[v_Renovaciones]'',
     ''[v_Rfnds]'', ''[Rfnds_U_U]'', ''[Total_Refnds]'', ''[v__Churn_from_act2]'',
     ''[v__Chur_prev_base]'', ''[v__Churn]'', ''[v_Auto_Ref]'', ''[Auto_Ref_UU]'',
     ''[Automatic_Refund_Amount]'', ''[v_Reg_Ref]'', ''[Reg_Ref_UU]'',
     ''[Reg_Refund_Amount]'']"

definition categories :: "string list" where
  "categories =
    [''Beauty and Health'', ''Free Time'', ''Games'', ''Education'', ''Images'',
     ''Kids'', ''Light'', ''Music'', ''News'', ''Sports'']"

definition category_col :: string where
  "category_col = ''Master_CPC[TME Category]''"

text \<open>
  \<open>df[df[col] == v]\<close>: the records whose cell under \<open>col\<close> is the text \<open>v\<close>, in
  sheet order; \<open>KeyError\<close> when the header has no such column.
\<close>

definition select_rows :: "dataframe \<Rightarrow> string \<Rightarrow> string \<Rightarrow> error + (string \<Rightarrow> cell) list" where
  "select_rows df col v =
     (if col \<in> set (columns df)
      then Inr (filter (\<lambda>r. r col = Str v) (rows df))
      else Inl (KeyError [col]))"

text \<open>\<open>output_df[name] = 0\<close>: the scalar fills the whole column; an existing column is
  replaced in place, a new one is appended on the right.\<close>

definition set_column :: "frame \<Rightarrow> string \<Rightarrow> cell \<Rightarrow> frame" where
  "set_column fr name v =
     (let vs = replicate (length (index fr)) v in
      if name \<in> fst ` set (cols fr)
      then fr\<lparr>cols := map (\<lambda>(n, old). if n = name then (n, vs) else (n, old)) (cols fr)\<rparr>
      else fr\<lparr>cols := cols fr @ [(name, vs)]\<rparr>)"

text \<open>
  \<open>output_df.loc[m, name] = v\<close> for a row label \<open>m\<close> of the index: a column that does
  not exist yet is appended, all NaN, and then every row labelled \<open>m\<close> receives \<open>v\<close>.
  A value of another type than the column's is stored as it is (pandas 2: the column becomes
  an object column).
\<close>

definition loc_set :: "frame \<Rightarrow> string \<Rightarrow> string \<Rightarrow> cell \<Rightarrow> frame" where
  "loc_set fr m name v =
     (let cs = (if name \<in> fst ` set (cols fr) then cols fr
                else cols fr @ [(name, replicate (length (index fr)) NaN)])
      in fr\<lparr>cols := map (\<lambda>(n, vs). if n = name
                                     then (n, map2 (\<lambda>l old. if l = m then v else old) (index fr) vs)
                                     else (n, vs)) cs\<rparr>)"

text \<open>The inner loop over the metrics for one matched record \<open>r\<close> (lines 111-116).\<close>

fun fill_metrics :: "(string \<Rightarrow> cell) \<Rightarrow> string list \<Rightarrow> string list \<Rightarrow> string \<Rightarrow> frame \<Rightarrow> frame" where
  "fill_metrics r dfcols [] c fr = fr"
| "fill_metrics r dfcols (m # ms) c fr =
     fill_metrics r dfcols ms c (loc_set fr m c (if m \<in> set dfcols then r m else Num 0))"

text \<open>
  The loop over the categories (lines 98-118). It returns what was printed and either the
  exception that stopped it or the frame it built.
\<close>

fun process_categories ::
  "dataframe \<Rightarrow> string list \<Rightarrow> string list \<Rightarrow> frame \<Rightarrow> event list \<times> (error + frame)" where
  "process_categories df ms [] fr = ([], Inr fr)"
| "process_categories df ms (c # cs) fr =
     (case select_rows df category_col c of
        Inl e \<Rightarrow> ([], Inl e)
      | Inr [] \<Rightarrow>
          (case process_categories df ms cs (set_column fr c (Num 0)) of
             (log, res) \<Rightarrow> (NotFound c # log, res))
      | Inr (r # _) \<Rightarrow>
          (case process_categories df ms cs (fill_metrics r (columns df) ms c fr) of
             (log, res) \<Rightarrow> (Processed c # log, res)))"

text \<open>\<open>output_df.fillna(0)\<close>\<close>

definition fillna_cell :: "cell \<Rightarrow> cell \<Rightarrow> cell" where
  "fillna_cell v x = (if x = NaN then v else x)"

definition fillna :: "cell \<Rightarrow> frame \<Rightarrow> frame" where
  "fillna v fr = fr\<lparr>cols := map (\<lambda>(n, vs). (n, map (fillna_cell v) vs)) (cols fr)\<rparr>"

text \<open>
  \<open>+\<close> on two cells, as pandas applies Python's \<open>+\<close> element by element: numbers add,
  texts concatenate, a text and a number raise \<open>TypeError\<close>, a missing operand gives NaN.
\<close>

fun add_cell :: "cell \<Rightarrow> cell \<Rightarrow> error + cell" where
  "add_cell (Num a) (Num b) = Inr (Num (a + b))"
| "add_cell (Str a) (Str b) = Inr (Str (a @ b))"
| "add_cell NaN _ = Inr NaN"
| "add_cell _ NaN = Inr NaN"
| "add_cell (Num _) (Str _) = Inl TypeError"
| "add_cell (Str _) (Num _) = Inl TypeError"

fun add_series :: "cell list \<Rightarrow> cell list \<Rightarrow> error + cell list" where
  "add_series (x # xs) (y # ys) =
     (case add_cell x y of
        Inl e \<Rightarrow> Inl e
      | Inr z \<Rightarrow> (case add_series xs ys of Inl e \<Rightarrow> Inl e | Inr zs \<Rightarrow> Inr (z # zs)))"
| "add_series _ _ = Inr []"

text \<open>\<open>columns.get_loc(name)\<close>: the position of the column label.\<close>

definition get_loc :: "string \<Rightarrow> frame \<Rightarrow> nat" where
  "get_loc name fr = length (takeWhile (\<lambda>n. n \<noteq> name) (map fst (cols fr)))"

text \<open>\<open>output_df.insert(loc, name, values)\<close>: refuses a label that is already a column.\<close>

definition insert_col :: "nat \<Rightarrow> string \<Rightarrow> cell list \<Rightarrow> frame \<Rightarrow> error + frame" where
  "insert_col loc name vs fr =
     (if name \<in> fst ` set (cols fr)
      then Inl (ValueError name)
      else Inr (fr\<lparr>cols := take loc (cols fr) @ (name, vs) # drop loc (cols fr)\<rparr>))"

text \<open>Lines 123-132: the calculated column, or the warning of the skip branch.\<close>

definition add_edu_img :: "frame \<Rightarrow> event list \<times> (error + frame)" where
  "add_edu_img fr =
     (case (map_of (cols fr) ''Education'', map_of (cols fr) ''Images'') of
        (Some edu, Some img) \<Rightarrow>
          (case add_series edu img of
             Inl e \<Rightarrow> ([], Inl e)
           | Inr edu_img_values \<Rightarrow>
               ([], insert_col (get_loc ''Images'' fr + 1) ''Edu+Img'' edu_img_values fr))
      | _ \<Rightarrow> ([DerivedSkipped], Inr fr))"

text \<open>
  Lines 91-121: the table of the categories alone, after \<open>fillna(0)\<close> and before the
  calculated column. The lists of the source are parameters of this helper so that small
  instances can be evaluated; the script's function fixes them below.
\<close>

definition base_table_with ::
  "string list \<Rightarrow> string list \<Rightarrow> dataframe \<Rightarrow> event list \<times> (error + frame)" where
  "base_table_with ms cs df =
     (case process_categories df ms cs \<lparr>index = ms, cols = []\<rparr> of
        (log, Inl e) \<Rightarrow> (log, Inl e)
      | (log, Inr fr) \<Rightarrow> (log, Inr (fillna (Num 0) fr)))"

definition transform_with ::
  "string list \<Rightarrow> string list \<Rightarrow> dataframe \<Rightarrow> event list \<times> (error + frame)" where
  "transform_with ms cs df =
     (case base_table_with ms cs df of
        (log, Inl e) \<Rightarrow> (log, Inl e)
      | (log, Inr fr) \<Rightarrow> (case add_edu_img fr of (log', res) \<Rightarrow> (log @ log', res)))"

definition base_table :: "dataframe \<Rightarrow> event list \<times> (error + frame)" where
  "base_table df = base_table_with metrics categories df"

definition transform_to_column_format :: "dataframe \<Rightarrow> event list \<times> (error + frame)" where
  "transform_to_column_format df = transform_with metrics categories df"

section \<open>generate\_services\_report.py\<close>

definition service_col :: string where
  "service_col = ''Master_CPC[Service Name]''"

definition metric_order :: "string list" where
  "metric_order =
    [''[TopLine_Revenue]'', ''[Base_usuarios]'', ''[v_Activaciones_Revenue]'',
     ''[v__Activaciones]'', ''[v_Renovaciones_Revenue]'', ''[v_Renovaciones]'',
     ''[v_Rfnds]'', ''[Rfnds_U_U]'', ''[Total_Refnds]'', ''[v__Churn_from_act2]'',
     ''[v__Chur_prev_base]'', ''[v__Churn]'', ''[v_Auto_Ref]'', ''[Auto_Ref_UU]'',
     ''[Automatic_Refund_Amount]'', ''[v_Reg_Ref]'', ''[Reg_Ref_UU]'',
     ''[Reg_Refund_Amount]'']"

text \<open>The accented letter of the fourth name is written as its two UTF-8 bytes.\<close>

definition service_order :: "string list" where
  "service_order =
    [''IntimaX'', ''Rincon Prohibido'', ''The Tourist'',
     ''El Mundo Al Rev'' @ [CHR 0xC3, CHR 0xA9] @ ''s'',
     ''Noticias Emocion'', ''Deportes emocion'', ''Cuidate Mejor'', ''Sexducate con LB'',
     ''Yo Mujer y +'', ''Slow Life'', ''Movistar Juegos'', ''Kids Play'', ''Smile & Learn'']"

text \<open>\<open>col.startswith('[') and col.endswith(']')\<close>\<close>

definition is_metric_col :: "string \<Rightarrow> bool" where
  "is_metric_col col = (col \<noteq> [] \<and> hd col = CHR ''['' \<and> last col = CHR '']'')"

definition get_metric_columns :: "dataframe \<Rightarrow> string list" where
  "get_metric_columns df = filter is_metric_col (columns df)"

text \<open>\<open>==\<close> between two cells as pandas compares them: the missing value equals nothing.\<close>

definition cell_eq :: "cell \<Rightarrow> cell \<Rightarrow> bool" where
  "cell_eq a b = (a = b \<and> a \<noteq> NaN)"

text \<open>\<open>[service_row[metric] for metric in metric_cols]\<close>\<close>

fun row_values :: "string list \<Rightarrow> (string \<Rightarrow> cell) \<Rightarrow> string list \<Rightarrow> error + cell list" where
  "row_values dfcols r [] = Inr []"
| "row_values dfcols r (m # ms) =
     (if m \<in> set dfcols
      then (case row_values dfcols r ms of Inl e \<Rightarrow> Inl e | Inr vs \<Rightarrow> Inr (r m # vs))
      else Inl (KeyError [m]))"

text \<open>
  The transformed data: a Python dict from column label to the list of its cells, which
  keeps the order of first insertion. \<open>d[k] = v\<close> replaces the value of a key that is
  present and appends a new key at the end.
\<close>

type_synonym tframe = "(cell \<times> cell list) list"

fun dict_set :: "('k \<times> 'v) list \<Rightarrow> 'k \<Rightarrow> 'v \<Rightarrow> ('k \<times> 'v) list" where
  "dict_set [] k v = [(k, v)]"
| "dict_set ((k', v') # d) k v =
     (if k' = k then (k', v) # d else (k', v') # dict_set d k v)"

text \<open>The loop of lines 98-101; \<open>.iloc[0]\<close> of an empty selection raises \<open>IndexError\<close>.\<close>

fun transform_loop :: "dataframe \<Rightarrow> string list \<Rightarrow> cell list \<Rightarrow> tframe \<Rightarrow> error + tframe" where
  "transform_loop df mc [] d = Inr d"
| "transform_loop df mc (s # ss) d =
     (case filter (\<lambda>r. cell_eq (r service_col) s) (rows df) of
        [] \<Rightarrow> Inl IndexError
      | r # _ \<Rightarrow>
          (case row_values (columns df) r mc of
             Inl e \<Rightarrow> Inl e
           | Inr vs \<Rightarrow> transform_loop df mc ss (dict_set d s vs)))"

definition transform_data :: "dataframe \<Rightarrow> string list \<Rightarrow> error + tframe" where
  "transform_data df metric_cols =
     (if service_col \<in> set (columns df)
      then transform_loop df metric_cols (map (\<lambda>r. r service_col) (rows df))
             [(Str service_col, map Str metric_cols)]
      else Inl (KeyError [service_col]))"

text \<open>\<open>.isin(metric_order)\<close> on one cell.\<close>

fun is_in :: "string list \<Rightarrow> cell \<Rightarrow> bool" where
  "is_in xs (Str s) = (s \<in> set xs)"
| "is_in xs _ = False"

text \<open>
  \<open>{metric: i for i, metric in enumerate(metric_order)}\<close>: for a name listed twice the
  later position wins.
\<close>

definition metric_order_map :: "string list \<Rightarrow> string \<Rightarrow> nat option" where
  "metric_order_map mo = map_of (rev (zip mo [0..<length mo]))"

text \<open>The \<open>_sort_order\<close> of a label; a label without a position sorts last.\<close>

fun sort_order :: "string list \<Rightarrow> cell \<Rightarrow> nat" where
  "sort_order mo (Str s) = (case metric_order_map mo s of Some i \<Rightarrow> i | None \<Rightarrow> length mo)"
| "sort_order mo _ = length mo"

text \<open>
  Lines 186-193 on one column: the cells of the rows whose label is in \<open>metric_order\<close>,
  sorted by the position of the label. Rows with equal positions (possible only when two
  rows carry the same label) keep their relative order here.
\<close>

definition arrange :: "string list \<Rightarrow> cell list \<Rightarrow> cell list \<Rightarrow> cell list" where
  "arrange mo labels vals =
     map snd (sort_key (\<lambda>(l, v). sort_order mo l)
                (filter (\<lambda>(l, v). is_in mo l) (zip labels vals)))"

text \<open>The final table of the services script: its columns in order, the label column first.\<close>

type_synonym table = "(string \<times> cell list) list"

text \<open>
  \<open>apply_output_structure\<close>. The helper column \<open>_sort_order\<close> is assigned and then
  dropped, so no column of that name is left to select from.
\<close>

definition apply_output_structure :: "tframe \<Rightarrow> string list \<Rightarrow> string list \<Rightarrow> error + table" where
  "apply_output_structure t mo so =
     (case map_of t (Str service_col) of
        None \<Rightarrow> Inl (KeyError [service_col])
      | Some labels \<Rightarrow>
          (let avail = filter (\<lambda>(k, vs). k \<noteq> Str ''_sort_order'') t;
               column_order = service_col # so;
               missing = filter (\<lambda>c. map_of avail (Str c) = None) column_order
           in if missing \<noteq> [] then Inl (KeyError missing)
              else Inr (concat (map (\<lambda>c. case map_of avail (Str c) of
                                            None \<Rightarrow> []
                                          | Some vs \<Rightarrow> [(c, arrange mo labels vs)])
                                    column_order))))"

text \<open>Steps 2, 3 and 5 of \<open>main\<close>, with the structure of step 4 as parameters.\<close>

definition services_report :: "dataframe \<Rightarrow> string list \<Rightarrow> string list \<Rightarrow> error + table" where
  "services_report df mo so =
     (case transform_data df (get_metric_columns df) of
        Inl e \<Rightarrow> Inl e
      | Inr t \<Rightarrow> apply_output_structure t mo so)"

section \<open>Paths (pathlib, POSIX flavour)\<close>

text \<open>
  \<open>Path(s)\<close> keeps a root and the list of components; empty components and \<open>.\<close> are
  dropped. Exactly two leading slashes are a root of their own.
\<close>

record path =
  root :: string
  parts :: "string list"

fun split_on :: "char \<Rightarrow> string \<Rightarrow> string list" where
  "split_on c [] = [Nil]"
| "split_on c (x # xs) =
     (if x = c then [] # split_on c xs
      else (case split_on c xs of p # ps \<Rightarrow> (x # p) # ps | [] \<Rightarrow> [x # Nil]))"

definition path_root :: "string \<Rightarrow> string" where
  "path_root s =
     (if take 1 s \<noteq> ''/'' then []
      else if take 1 (drop 1 s) \<noteq> ''/'' \<or> take 1 (drop 2 s) = ''/'' then ''/''
      else ''//'')"

definition parse_path :: "string \<Rightarrow> path" where
  "parse_path s =
     \<lparr>root = path_root s,
      parts = filter (\<lambda>x. x \<noteq> [] \<and> x \<noteq> ''.'') (split_on CHR ''/'' s)\<rparr>"

fun join_with :: "char \<Rightarrow> string list \<Rightarrow> string" where
  "join_with c [] = []"
| "join_with c [x] = x"
| "join_with c (x # y # ys) = x @ c # join_with c (y # ys)"

definition path_str :: "path \<Rightarrow> string" where
  "path_str p =
     (if root p = [] \<and> parts p = [] then ''.'' else root p @ join_with CHR ''/'' (parts p))"

definition parent :: "path \<Rightarrow> path" where
  "parent p = p\<lparr>parts := butlast (parts p)\<rparr>"

definition path_name :: "path \<Rightarrow> string" where
  "path_name p = (if parts p = [] then [] else last (parts p))"

text \<open>
  \<open>name.rfind('.')\<close>, with \<open>None\<close> for Python's -1. The stem and the suffix follow
  pathlib's rule that a leading or a trailing dot starts no suffix.
\<close>

definition rfind_dot :: "string \<Rightarrow> nat option" where
  "rfind_dot name =
     (if CHR ''.'' \<in> set name
      then Some (length name - 1 - length (takeWhile (\<lambda>c. c \<noteq> CHR ''.'') (rev name)))
      else None)"

definition stem :: "path \<Rightarrow> string" where
  "stem p =
     (let name = path_name p in
      case rfind_dot name of
        Some i \<Rightarrow> if 0 < i \<and> i < length name - 1 then take i name else name
      | None \<Rightarrow> name)"

definition suffix :: "path \<Rightarrow> string" where
  "suffix p =
     (let name = path_name p in
      case rfind_dot name of
        Some i \<Rightarrow> if 0 < i \<and> i < length name - 1 then drop i name else []
      | None \<Rightarrow> [])"

text \<open>\<open>p / s\<close>: an absolute right operand replaces the left one.\<close>

definition joinpath :: "path \<Rightarrow> string \<Rightarrow> path" where
  "joinpath p s =
     (if take 1 s = ''/'' then parse_path s
      else p\<lparr>parts := parts p @ parts (parse_path s)\<rparr>)"

text \<open>\<open>str(input_path.parent / f"{input_path.stem}_output.xlsx")\<close>, the same in both scripts.\<close>

definition default_output_file :: "string \<Rightarrow> string" where
  "default_output_file input_file =
     (let input_path = parse_path input_file
      in path_str (joinpath (parent input_path) (stem input_path @ ''_output.xlsx'')))"

section \<open>The two \<open>main\<close> functions\<close>

text \<open>
  The file system as the scripts see it: whether a path exists, the \<open>Export\<close> sheet of
  the workbook at a path (\<open>None\<close> when it cannot be read) and whether a path can be
  written.
\<close>

record world =
  file_exists :: "string \<Rightarrow> bool"
  export_sheet :: "string \<Rightarrow> dataframe option"
  writable :: "string \<Rightarrow> bool"

text \<open>How a run ends: the exit status, and the file written with its content, if any.\<close>

record 't outcome =
  exit_code :: nat
  saved :: "(string \<times> 't) option"

definition failed :: "'t outcome" where
  "failed = \<lparr>exit_code = 1, saved = None\<rparr>"

definition read_category_data :: "world \<Rightarrow> string \<Rightarrow> error + dataframe" where
  "read_category_data w input_file =
     (if file_exists w input_file
      then (case export_sheet w input_file of None \<Rightarrow> Inl ReadError | Some df \<Rightarrow> Inr df)
      else Inl (FileNotFoundError input_file))"

text \<open>
  \<open>main\<close> of the category script. An exception that leaves \<open>transform_to_column_format\<close>
  is not caught: the interpreter prints the traceback and exits with status 1.
\<close>

definition category_main :: "string list \<Rightarrow> world \<Rightarrow> frame outcome" where
  "category_main argv w =
     (case argv of
        _ # input_file # rest \<Rightarrow>
          (let output_file = (case rest of out # _ \<Rightarrow> out | [] \<Rightarrow> default_output_file input_file)
           in case read_category_data w input_file of
                Inl e \<Rightarrow> failed
              | Inr df \<Rightarrow>
                  (case snd (transform_to_column_format df) of
                     Inl e \<Rightarrow> failed
                   | Inr output_df \<Rightarrow>
                       if writable w output_file
                       then \<lparr>exit_code = 0, saved = Some (output_file, output_df)\<rparr>
                       else failed))
      | _ \<Rightarrow> failed)"

definition read_input_data :: "world \<Rightarrow> string \<Rightarrow> error + dataframe" where
  "read_input_data w input_file =
     (if \<not> file_exists w input_file then Inl (FileNotFoundError input_file)
      else (case export_sheet w input_file of
              None \<Rightarrow> Inl ReadError
            | Some df \<Rightarrow>
                if service_col \<notin> set (columns df)
                then Inl (ValueError ''Missing required column: Master_CPC[Service Name]'')
                else Inr df))"

definition save_output :: "world \<Rightarrow> 't \<Rightarrow> string \<Rightarrow> error + (string \<times> 't)" where
  "save_output w df output_file =
     (if writable w output_file then Inr (output_file, df) else Inl WriteError)"

text \<open>\<open>main\<close> of the services script: every exception of steps 1-7 ends in \<open>sys.exit(1)\<close>.\<close>

definition services_main :: "string list \<Rightarrow> world \<Rightarrow> table outcome" where
  "services_main argv w =
     (case argv of
        _ # input_file # rest \<Rightarrow>
          (let output_file = (case rest of out # _ \<Rightarrow> out | [] \<Rightarrow> default_output_file input_file)
           in case read_input_data w input_file of
                Inl e \<Rightarrow> failed
              | Inr df_input \<Rightarrow>
                  (case services_report df_input metric_order service_order of
                     Inl e \<Rightarrow> failed
                   | Inr df_final \<Rightarrow>
                       (case save_output w df_final output_file of
                          Inl e \<Rightarrow> failed
                        | Inr written \<Rightarrow> \<lparr>exit_code = 0, saved = Some written\<rparr>)))
      | _ \<Rightarrow> failed)"

section \<open>Notions used to state the properties\<close>

text \<open>The cell the category script derives from a matched record \<open>r\<close> for metric \<open>m\<close>.\<close>

definition cell_of :: "dataframe \<Rightarrow> (string \<Rightarrow> cell) \<Rightarrow> string \<Rightarrow> cell" where
  "cell_of df r m = (if m \<in> set (columns df) then r m else Num 0)"

text \<open>The records of a category, in sheet order.\<close>

definition records_of :: "dataframe \<Rightarrow> string \<Rightarrow> (string \<Rightarrow> cell) list" where
  "records_of df c = filter (\<lambda>r. r category_col = Str c) (rows df)"

text \<open>The column the loop builds for category \<open>c\<close>, and the message it prints for it.\<close>

definition column_of :: "dataframe \<Rightarrow> string list \<Rightarrow> string \<Rightarrow> cell list" where
  "column_of df ms c =
     (case records_of df c of
        [] \<Rightarrow> replicate (length ms) (Num 0)
      | r # _ \<Rightarrow> map (cell_of df r) ms)"

definition event_of :: "dataframe \<Rightarrow> string \<Rightarrow> event" where
  "event_of df c = (case records_of df c of [] \<Rightarrow> NotFound c | r # _ \<Rightarrow> Processed c)"


text \<open>The column of category \<open>c\<close> after \<open>fillna(0)\<close>, for the metrics of the script.\<close>

definition base_col :: "dataframe \<Rightarrow> string \<Rightarrow> cell list" where
  "base_col df c = map (fillna_cell (Num 0)) (column_of df metrics c)"






text \<open>The first record of the services sheet whose key cell equals \<open>k\<close>.\<close>

definition first_service_record :: "dataframe \<Rightarrow> cell \<Rightarrow> (string \<Rightarrow> cell) option" where
  "first_service_record df k =
     (case filter (\<lambda>r. cell_eq (r service_col) k) (rows df) of
        [] \<Rightarrow> None
      | r # _ \<Rightarrow> Some r)"


text \<open>
  The sheet without the later records of a key: of the records that share a cell under
  \<open>key\<close>, only the first is kept.
\<close>

fun keep_first :: "cell list \<Rightarrow> string \<Rightarrow> (string \<Rightarrow> cell) list \<Rightarrow> (string \<Rightarrow> cell) list" where
  "keep_first seen key [] = []"
| "keep_first seen key (r # rs) =
     (if r key \<in> set seen then keep_first seen key rs
      else r # keep_first (r key # seen) key rs)"

definition drop_duplicates :: "string \<Rightarrow> dataframe \<Rightarrow> dataframe" where
  "drop_duplicates key df = df\<lparr>rows := keep_first [] key (rows df)\<rparr>"

text \<open>A parsed path: a POSIX root, and components that are neither empty nor \<open>.\<close> and
  hold no separator.\<close>

definition wf_path :: "path \<Rightarrow> bool" where
  "wf_path p \<longleftrightarrow>
     (root p = [] \<or> root p = ''/'' \<or> root p = ''//'') \<and>
     list_all (\<lambda>x. x \<noteq> [] \<and> x \<noteq> ''.'' \<and> CHR ''/'' \<notin> set x) (parts p)"

section \<open>Example inputs\<close>

text \<open>A file system with one readable workbook at \<open>f\<close>; every path can be written.\<close>

definition world_of :: "string \<Rightarrow> dataframe \<Rightarrow> world" where
  "world_of f df = \<lparr>file_exists = (\<lambda>p. p = f),
                    export_sheet = (\<lambda>p. if p = f then Some df else None),
                    writable = (\<lambda>p. True)\<rparr>"

text \<open>The end-to-end scenario: three categories with one metric each, and the table it yields.\<close>

definition df_e2e :: dataframe where
  "df_e2e = \<lparr>columns = [category_col, ''[TopLine_Revenue]''],
            rows = [(\<lambda>c. NaN)(category_col := Str ''Games'', ''[TopLine_Revenue]'' := Num 100),
                    (\<lambda>c. NaN)(category_col := Str ''Education'', ''[TopLine_Revenue]'' := Num 10),
                    (\<lambda>c. NaN)(category_col := Str ''Images'', ''[TopLine_Revenue]'' := Num 20)]\<rparr>"

definition fr_e2e :: frame where
  "fr_e2e = \<lparr>index = metrics,
     cols = [(''Beauty and Health'', replicate 18 (Num 0)),
             (''Free Time'', replicate 18 (Num 0)),
             (''Games'', Num 100 # replicate 17 (Num 0)),
             (''Education'', Num 10 # replicate 17 (Num 0)),
             (''Images'', Num 20 # replicate 17 (Num 0)),
             (''Edu+Img'', Num 30 # replicate 17 (Num 0)),
             (''Kids'', replicate 18 (Num 0)),
             (''Light'', replicate 18 (Num 0)),
             (''Music'', replicate 18 (Num 0)),
             (''News'', replicate 18 (Num 0)),
             (''Sports'', replicate 18 (Num 0))]\<rparr>"


text \<open>A sheet that has neither key column.\<close>

definition df_nokey :: dataframe where
  "df_nokey = \<lparr>columns = [''Name'', ''[TopLine_Revenue]''],
              rows = [(\<lambda>c. NaN)(''Name'' := Str ''Games'', ''[TopLine_Revenue]'' := Num 100)]\<rparr>"



text \<open>
  The services sheet of the examples: every service of the script once, a single metric
  column, filled in for the first service only.
\<close>

definition df_services :: dataframe where
  "df_services =
     \<lparr>columns = [service_col, ''[TopLine_Revenue]''],
      rows = map (\<lambda>s. (\<lambda>c. NaN)(service_col := Str s,
                                  ''[TopLine_Revenue]'' := (if s = ''IntimaX'' then Num 7 else NaN)))
                 service_order\<rparr>"

definition out_services :: table where
  "out_services =
     (service_col, [Str ''[TopLine_Revenue]'']) #
     map (\<lambda>s. (s, [if s = ''IntimaX'' then Num 7 else NaN])) service_order"


text \<open>Two records for the same category, and two for the same service.\<close>

definition rec_games_first :: "string \<Rightarrow> cell" where
  "rec_games_first = (\<lambda>c. NaN)(category_col := Str ''Games'', ''[TopLine_Revenue]'' := Num 100)"

definition rec_games_second :: "string \<Rightarrow> cell" where
  "rec_games_second = (\<lambda>c. NaN)(category_col := Str ''Games'', ''[TopLine_Revenue]'' := Num 999)"

definition df_dup :: dataframe where
  "df_dup = \<lparr>columns = [category_col, ''[TopLine_Revenue]''],
            rows = [rec_games_first, rec_games_second]\<rparr>"

definition rec_service_first :: "string \<Rightarrow> cell" where
  "rec_service_first = (\<lambda>c. NaN)(service_col := Str ''IntimaX'', ''[TopLine_Revenue]'' := Num 7)"

definition rec_service_second :: "string \<Rightarrow> cell" where
  "rec_service_second = (\<lambda>c. NaN)(service_col := Str ''IntimaX'', ''[TopLine_Revenue]'' := Num 9)"

definition sheet_dup :: dataframe where
  "sheet_dup = \<lparr>columns = [service_col, ''[TopLine_Revenue]''],
               rows = [rec_service_first, rec_service_second]\<rparr>"

text \<open>The transformed columns of the sheet with two records of one service.\<close>

definition t_dup :: tframe where
  "t_dup = [(Str service_col, [Str ''[TopLine_Revenue]'']), (Str ''IntimaX'', [Num 7])]"

section \<open>Properties of the category script\<close>

subsection \<open>The loop in closed form\<close>

lemma map2_map2:
  "length vs = length ls \<Longrightarrow>
   map2 g ls (map2 h ls vs) = map2 (\<lambda>l old. g l (h l old)) ls vs"
  by (induction vs ls rule: list_induct2) auto

lemma map2_replicate:
  "map2 g ls (replicate (length ls) x) = map (\<lambda>l. g l x) ls"
  by (induction ls) auto

lemma map_other_cols:
  "name \<notin> fst ` set xs \<Longrightarrow>
   map (\<lambda>(n, vs). if n = name then (n, f vs) else (n, vs)) xs = xs"
  by (induction xs) auto

lemma loc_set_new:
  "name \<notin> fst ` set (cols fr) \<Longrightarrow>
   loc_set fr m name v =
     fr\<lparr>cols := cols fr @ [(name, map2 (\<lambda>l old. if l = m then v else old) (index fr)
                                   (replicate (length (index fr)) NaN))]\<rparr>"
  unfolding loc_set_def Let_def
  by (simp add: map_other_cols)

lemma loc_set_last:
  "name \<notin> fst ` set xs \<Longrightarrow> cols fr = xs @ [(name, vs)] \<Longrightarrow>
   loc_set fr m name v =
     fr\<lparr>cols := xs @ [(name, map2 (\<lambda>l old. if l = m then v else old) (index fr) vs)]\<rparr>"
  unfolding loc_set_def Let_def
  by (simp add: map_other_cols)

lemma fill_metrics_last:
  assumes "name \<notin> fst ` set xs" "cols fr = xs @ [(name, vs)]" "length vs = length (index fr)"
  shows "fill_metrics r dc L name fr =
     fr\<lparr>cols := xs @ [(name, map2 (\<lambda>l old. if l \<in> set L then (if l \<in> set dc then r l else Num 0) else old)
                                  (index fr) vs)]\<rparr>"
  using assms
proof (induction L arbitrary: fr vs)
  case Nil
  then show ?case by (simp add: map_idI case_prod_unfold)
next
  case (Cons m L)
  define f where "f = (\<lambda>l. if l \<in> set dc then r l else Num 0)"
  define vs1 where "vs1 = map2 (\<lambda>l old. if l = m then f m else old) (index fr) vs"
  define fr1 where "fr1 = fr\<lparr>cols := xs @ [(name, vs1)]\<rparr>"
  have s: "loc_set fr m name (f m) = fr1"
    using Cons.prems by (simp add: loc_set_last fr1_def vs1_def)
  have l1: "length vs1 = length (index fr1)"
    using Cons.prems by (simp add: vs1_def fr1_def)
  have "fill_metrics r dc L name fr1 =
     fr1\<lparr>cols := xs @ [(name, map2 (\<lambda>l old. if l \<in> set L then f l else old) (index fr1) vs1)]\<rparr>"
    unfolding f_def by (rule Cons.IH[OF Cons.prems(1) _ l1]) (simp add: fr1_def)
  moreover have "map2 (\<lambda>l old. if l \<in> set L then f l else old) (index fr) vs1 =
        map2 (\<lambda>l old. if l \<in> set (m # L) then f l else old) (index fr) vs"
  proof -
    have e: "(\<lambda>l old. if l \<in> set L then f l else (if l = m then f m else old)) =
             (\<lambda>l old. if l \<in> set (m # L) then f l else old)"
      by (intro ext) auto
    show ?thesis
      unfolding vs1_def using Cons.prems(3) by (simp only: map2_map2 e)
  qed
  ultimately have "fill_metrics r dc L name fr1 =
      fr\<lparr>cols := xs @ [(name, map2 (\<lambda>l old. if l \<in> set (m # L) then f l else old) (index fr) vs)]\<rparr>"
    by (simp add: fr1_def)
  then show ?case
    using s by (simp add: f_def)
qed

lemma fill_metrics_all:
  assumes "c \<notin> fst ` set (cols fr)" "ms \<noteq> []" "index fr = ms"
  shows "fill_metrics r dc ms c fr =
     fr\<lparr>cols := cols fr @ [(c, map (\<lambda>l. if l \<in> set dc then r l else Num 0) ms)]\<rparr>"
proof -
  obtain m ms' where ms: "ms = m # ms'" using assms(2) by (cases ms) auto
  define f where "f = (\<lambda>l. if l \<in> set dc then r l else Num 0)"
  define vs1 where "vs1 = map2 (\<lambda>l old. if l = m then f m else old) ms (replicate (length ms) NaN)"
  define fr1 where "fr1 = fr\<lparr>cols := cols fr @ [(c, vs1)]\<rparr>"
  have s: "loc_set fr m c (f m) = fr1"
    using assms by (simp add: loc_set_new fr1_def vs1_def)
  have i1: "index fr1 = ms" by (simp add: fr1_def assms)
  have "fill_metrics r dc ms' c fr1 =
     fr1\<lparr>cols := cols fr @ [(c, map2 (\<lambda>l old. if l \<in> set ms' then (if l \<in> set dc then r l else Num 0) else old) (index fr1) vs1)]\<rparr>"
    by (rule fill_metrics_last[OF assms(1)]) (simp_all add: fr1_def vs1_def assms)
  then have a: "fill_metrics r dc ms' c fr1 =
     fr1\<lparr>cols := cols fr @ [(c, map2 (\<lambda>l old. if l \<in> set ms' then f l else old) ms vs1)]\<rparr>"
    unfolding f_def i1 .
  have b: "map2 (\<lambda>l old. if l \<in> set ms' then f l else old) ms vs1 = map f ms"
  proof -
    have "map2 (\<lambda>l old. if l \<in> set ms' then f l else old) ms vs1 =
          map2 (\<lambda>l old. if l \<in> set ms' then f l else (if l = m then f m else old)) ms (replicate (length ms) NaN)"
      unfolding vs1_def by (simp only: map2_map2 length_replicate)
    also have "\<dots> = map (\<lambda>l. if l \<in> set ms' then f l else (if l = m then f m else NaN)) ms"
      by (rule map2_replicate)
    also have "\<dots> = map f ms"
      by (rule map_cong) (auto simp: ms)
    finally show ?thesis .
  qed
  have "fill_metrics r dc ms c fr = fill_metrics r dc ms' c (loc_set fr m c (f m))"
    by (simp add: ms f_def)
  also have "\<dots> = fr1\<lparr>cols := cols fr @ [(c, map f ms)]\<rparr>"
    unfolding s a b ..
  also have "\<dots> = fr\<lparr>cols := cols fr @ [(c, map f ms)]\<rparr>"
    by (simp add: fr1_def)
  finally show ?thesis unfolding f_def .
qed

lemma set_column_new:
  "c \<notin> fst ` set (cols fr) \<Longrightarrow>
   set_column fr c v = fr\<lparr>cols := cols fr @ [(c, replicate (length (index fr)) v)]\<rparr>"
  by (simp add: set_column_def)

lemma select_rows_present:
  "category_col \<in> set (columns df) \<Longrightarrow>
   select_rows df category_col c = Inr (records_of df c)"
  by (simp add: select_rows_def records_of_def)

lemma process_categories_closed:
  assumes "category_col \<in> set (columns df)" "ms \<noteq> []"
  shows "distinct cs \<Longrightarrow> set cs \<inter> fst ` set (cols fr) = {} \<Longrightarrow> index fr = ms \<Longrightarrow>
     process_categories df ms cs fr =
       (map (event_of df) cs, Inr (fr\<lparr>cols := cols fr @ map (\<lambda>c. (c, column_of df ms c)) cs\<rparr>))"
proof (induction cs arbitrary: fr)
  case Nil
  then show ?case by simp
next
  case (Cons c cs)
  have cn: "c \<notin> fst ` set (cols fr)" using Cons.prems by auto
  show ?case
  proof (cases "records_of df c")
    case Nil
    let ?fr1 = "fr\<lparr>cols := cols fr @ [(c, replicate (length ms) (Num 0))]\<rparr>"
    have s: "set_column fr c (Num 0) = ?fr1"
      using cn Cons.prems by (simp add: set_column_new)
    have "process_categories df ms cs ?fr1 =
       (map (event_of df) cs, Inr (?fr1\<lparr>cols := cols ?fr1 @ map (\<lambda>c. (c, column_of df ms c)) cs\<rparr>))"
      by (rule Cons.IH) (use Cons.prems in auto)
    then show ?thesis
      using Nil s assms(1) by (simp add: select_rows_present event_of_def column_of_def)
  next
    case (Cons r rest)
    let ?fr1 = "fr\<lparr>cols := cols fr @ [(c, map (cell_of df r) ms)]\<rparr>"
    have s: "fill_metrics r (columns df) ms c fr = ?fr1"
      using fill_metrics_all[OF cn assms(2), where r=r and dc="columns df"] Cons.prems
      by (simp add: cell_of_def[abs_def])
    have "process_categories df ms cs ?fr1 =
       (map (event_of df) cs, Inr (?fr1\<lparr>cols := cols ?fr1 @ map (\<lambda>c. (c, column_of df ms c)) cs\<rparr>))"
      by (rule Cons.IH) (use Cons.prems in auto)
    then show ?thesis
      using Cons s assms(1) by (simp add: select_rows_present event_of_def column_of_def)
  qed
qed


lemma length_column_of: "length (column_of df ms c) = length ms"
  by (simp add: column_of_def split: list.splits)

lemma base_table_with_closed:
  assumes "category_col \<in> set (columns df)" "ms \<noteq> []" "distinct cs"
  shows "base_table_with ms cs df =
    (map (event_of df) cs,
     Inr \<lparr>index = ms, cols = map (\<lambda>c. (c, map (fillna_cell (Num 0)) (column_of df ms c))) cs\<rparr>)"
proof -
  have "process_categories df ms cs \<lparr>index = ms, cols = []\<rparr> =
       (map (event_of df) cs,
        Inr (\<lparr>index = ms, cols = []\<rparr>\<lparr>cols := cols \<lparr>index = ms, cols = []\<rparr> @ map (\<lambda>c. (c, column_of df ms c)) cs\<rparr>))"
    by (rule process_categories_closed[OF assms(1,2,3)]) simp_all
  then show ?thesis
    by (simp add: base_table_with_def fillna_def comp_def)
qed

lemma distinct_categories: "distinct categories"
  by (simp add: categories_def)

lemma metrics_nonempty: "metrics \<noteq> []"
  by (simp add: metrics_def)

lemma length_metrics: "length metrics = 18"
  by (simp add: metrics_def)

lemma length_categories: "length categories = 10"
  by (simp add: categories_def)

lemma base_table_closed:
  assumes "category_col \<in> set (columns df)"
  shows "base_table df =
    (map (event_of df) categories,
     Inr \<lparr>index = metrics, cols = map (\<lambda>c. (c, base_col df c)) categories\<rparr>)"
  unfolding base_table_def base_col_def
  by (rule base_table_with_closed[OF assms metrics_nonempty distinct_categories])

lemma transform_closed:
  assumes "category_col \<in> set (columns df)"
  shows "transform_to_column_format df =
    (map (event_of df) categories,
     case add_series (base_col df ''Education'') (base_col df ''Images'') of
       Inl e \<Rightarrow> Inl e
     | Inr s \<Rightarrow> Inr \<lparr>index = metrics,
                     cols = map (\<lambda>c. (c, base_col df c)) (take 5 categories) @
                            (''Edu+Img'', s) # map (\<lambda>c. (c, base_col df c)) (drop 5 categories)\<rparr>)"
proof -
  have b: "base_table_with metrics categories df =
    (map (event_of df) categories,
     Inr \<lparr>index = metrics, cols = map (\<lambda>c. (c, base_col df c)) categories\<rparr>)"
    using base_table_closed[OF assms] by (simp add: base_table_def)
  show ?thesis
    unfolding transform_to_column_format_def transform_with_def b
    by (simp add: add_edu_img_def categories_def get_loc_def insert_col_def split: sum.splits)
qed

subsection \<open>The calculated column\<close>

lemma add_series_nth:
  "add_series xs ys = Inr zs \<Longrightarrow> length xs = length ys \<Longrightarrow>
   length zs = length xs \<and> (\<forall>i < length xs. add_cell (xs ! i) (ys ! i) = Inr (zs ! i))"
proof (induction xs ys arbitrary: zs rule: add_series.induct)
  case (1 x xs y ys)
  then obtain z zs' where z: "add_cell x y = Inr z" "add_series xs ys = Inr zs'" "zs = z # zs'"
    by (auto split: sum.splits)
  with 1 have "length zs' = length xs \<and> (\<forall>i < length xs. add_cell (xs ! i) (ys ! i) = Inr (zs' ! i))"
    by simp
  with z show ?case
    by (auto simp: nth_Cons split: nat.splits)
qed auto

lemma length_base_col: "length (base_col df c) = length metrics"
  by (simp add: base_col_def length_column_of)

lemma transform_key_missing:
  "category_col \<notin> set (columns df) \<Longrightarrow>
   transform_to_column_format df = ([], Inl (KeyError [category_col]))"
  by (simp add: transform_to_column_format_def transform_with_def base_table_with_def
      categories_def select_rows_def)

lemma e2e_eval: "snd (transform_to_column_format df_e2e) = Inr fr_e2e"
  by code_simp


lemma add_cell_num: "add_cell x y = Inr z \<Longrightarrow> x = Num a \<Longrightarrow> y = Num b \<Longrightarrow> z = Num (a + b)"
  by auto

text \<open>
  C5: when the calculated column is created (the transformation returns a table), the table
  has the columns \<open>Education\<close>, \<open>Images\<close> and \<open>Edu+Img\<close>, each with one cell per
  metric; in every metric row the cell of \<open>Edu+Img\<close> is the \<open>+\<close> of the cells of
  \<open>Education\<close> and \<open>Images\<close> (for two numbers, their sum); and \<open>Edu+Img\<close> is the
  column immediately to the right of \<open>Images\<close>.
\<close>

theorem derived_column_is_sum:
  assumes "snd (transform_to_column_format df) = Inr fr"
  shows "\<exists>edu img edu_img pre post.
           index fr = metrics \<and> distinct (map fst (cols fr)) \<and>
           map_of (cols fr) ''Education'' = Some edu \<and>
           map_of (cols fr) ''Images'' = Some img \<and>
           map_of (cols fr) ''Edu+Img'' = Some edu_img \<and>
           length edu = length metrics \<and> length img = length metrics \<and>
           length edu_img = length metrics \<and>
           (\<forall>i < length metrics. add_cell (edu ! i) (img ! i) = Inr (edu_img ! i)) \<and>
           (\<forall>i < length metrics. \<forall>a b. edu ! i = Num a \<and> img ! i = Num b
                \<longrightarrow> edu_img ! i = Num (a + b)) \<and>
           map fst (cols fr) = pre @ ''Images'' # ''Edu+Img'' # post"
proof (cases "category_col \<in> set (columns df)")
  case False
  then show ?thesis using assms by (simp add: transform_key_missing)
next
  case True
  define E where "E = base_col df ''Education''"
  define I where "I = base_col df ''Images''"
  obtain s where s: "add_series E I = Inr s"
    and fr: "fr = \<lparr>index = metrics,
                   cols = map (\<lambda>c. (c, base_col df c)) (take 5 categories) @
                          (''Edu+Img'', s) # map (\<lambda>c. (c, base_col df c)) (drop 5 categories)\<rparr>"
    using assms transform_closed[OF True] by (auto simp: E_def I_def split: sum.splits)
  have len: "length E = length metrics" "length I = length metrics"
    by (simp_all add: E_def I_def length_base_col)
  then have n: "length s = length metrics"
    "\<forall>i < length metrics. add_cell (E ! i) (I ! i) = Inr (s ! i)"
    using add_series_nth[OF s] by simp_all
  have num: "\<forall>i < length metrics. \<forall>a b. E ! i = Num a \<and> I ! i = Num b \<longrightarrow> s ! i = Num (a + b)"
    using n(2) add_cell_num by blast
  have names: "map fst (cols fr) = take 4 categories @ ''Images'' # ''Edu+Img'' # drop 5 categories"
    by (simp add: fr categories_def)
  have d: "distinct (map fst (cols fr))"
    by (simp add: fr categories_def)
  have l: "map_of (cols fr) ''Education'' = Some E" "map_of (cols fr) ''Images'' = Some I"
    "map_of (cols fr) ''Edu+Img'' = Some s"
    by (simp_all add: fr categories_def E_def I_def)
  have i: "index fr = metrics" by (simp add: fr)
  show ?thesis
    using i d l len n num names by blast
qed

theorem derived_column_is_sum_witness:
  "snd (transform_to_column_format df_e2e) = Inr fr_e2e \<and>
   (\<exists>edu img edu_img pre post.
           index fr_e2e = metrics \<and> distinct (map fst (cols fr_e2e)) \<and>
           map_of (cols fr_e2e) ''Education'' = Some edu \<and>
           map_of (cols fr_e2e) ''Images'' = Some img \<and>
           map_of (cols fr_e2e) ''Edu+Img'' = Some edu_img \<and>
           length edu = length metrics \<and> length img = length metrics \<and>
           length edu_img = length metrics \<and>
           (\<forall>i < length metrics. add_cell (edu ! i) (img ! i) = Inr (edu_img ! i)) \<and>
           (\<forall>i < length metrics. \<forall>a b. edu ! i = Num a \<and> img ! i = Num b
                \<longrightarrow> edu_img ! i = Num (a + b)) \<and>
           map fst (cols fr_e2e) = pre @ ''Images'' # ''Edu+Img'' # post)"
proof -
  have h: "snd (transform_to_column_format df_e2e) = Inr fr_e2e"
    by (rule e2e_eval)
  show ?thesis
    using h derived_column_is_sum[OF h] by blast
qed








subsection \<open>A sheet without the key column\<close>

text \<open>
  C9: when the sheet lacks the key column, the category script fails at the first lookup,
  before any category is processed (nothing was printed by the loop, no column was built),
  and the services script fails while reading, before its transformation is called; both
  exit with status 1 and write no file.
\<close>

theorem missing_key_column_aborts:
  assumes "file_exists w input_file" "export_sheet w input_file = Some df"
  shows "(category_col \<notin> set (columns df) \<longrightarrow>
            transform_to_column_format df = ([], Inl (KeyError [category_col])) \<and>
            category_main (prog # input_file # rest) w = \<lparr>exit_code = 1, saved = None\<rparr>) \<and>
         (service_col \<notin> set (columns df) \<longrightarrow>
            read_input_data w input_file =
              Inl (ValueError ''Missing required column: Master_CPC[Service Name]'') \<and>
            services_main (prog # input_file # rest) w = \<lparr>exit_code = 1, saved = None\<rparr>)"
proof (intro conjI impI)
  assume k: "category_col \<notin> set (columns df)"
  show "transform_to_column_format df = ([], Inl (KeyError [category_col]))"
    by (rule transform_key_missing[OF k])
  then show "category_main (prog # input_file # rest) w = \<lparr>exit_code = 1, saved = None\<rparr>"
    using assms by (simp add: category_main_def read_category_data_def failed_def Let_def)
next
  assume k: "service_col \<notin> set (columns df)"
  show r: "read_input_data w input_file =
              Inl (ValueError ''Missing required column: Master_CPC[Service Name]'')"
    using assms k by (simp add: read_input_data_def)
  show "services_main (prog # input_file # rest) w = \<lparr>exit_code = 1, saved = None\<rparr>"
    by (simp add: services_main_def r failed_def Let_def)
qed

theorem missing_key_column_aborts_witness:
  "file_exists (world_of ''data.xlsx'' df_nokey) ''data.xlsx'' \<and>
   export_sheet (world_of ''data.xlsx'' df_nokey) ''data.xlsx'' = Some df_nokey \<and>
   category_col \<notin> set (columns df_nokey) \<and> service_col \<notin> set (columns df_nokey) \<and>
   transform_to_column_format df_nokey = ([], Inl (KeyError [category_col])) \<and>
   category_main [''prog'', ''data.xlsx''] (world_of ''data.xlsx'' df_nokey) =
     \<lparr>exit_code = 1, saved = None\<rparr> \<and>
   read_input_data (world_of ''data.xlsx'' df_nokey) ''data.xlsx'' =
     Inl (ValueError ''Missing required column: Master_CPC[Service Name]'') \<and>
   services_main [''prog'', ''data.xlsx''] (world_of ''data.xlsx'' df_nokey) =
     \<lparr>exit_code = 1, saved = None\<rparr>"
proof -
  have a: "file_exists (world_of ''data.xlsx'' df_nokey) ''data.xlsx''"
    and b: "export_sheet (world_of ''data.xlsx'' df_nokey) ''data.xlsx'' = Some df_nokey"
    by (simp_all add: world_of_def)
  have c: "category_col \<notin> set (columns df_nokey)" "service_col \<notin> set (columns df_nokey)"
    by (simp_all add: df_nokey_def category_col_def service_col_def)
  show ?thesis
    using a b c missing_key_column_aborts[OF a b, of "''prog''" "[]"] by simp
qed

section \<open>Properties of the services script\<close>

subsection \<open>The dict of transformed columns\<close>

lemma map_of_dict_set: "map_of (dict_set d k v) = (map_of d)(k \<mapsto> v)"
  by (induction d k v rule: dict_set.induct) auto

lemma dict_set_same: "map_of d k = Some v \<Longrightarrow> dict_set d k v = d"
  by (induction d k v rule: dict_set.induct) (auto split: if_splits)


lemma row_values_Inr: "row_values dc r mc = Inr vs \<Longrightarrow> vs = map r mc"
  by (induction mc arbitrary: vs) (auto split: if_splits sum.splits)

lemma row_values_subset: "set mc \<subseteq> set dc \<Longrightarrow> row_values dc r mc = Inr (map r mc)"
  by (induction mc) auto

lemma first_service_record_Some:
  "first_service_record df k = Some r \<Longrightarrow> r \<in> set (rows df) \<and> r service_col = k \<and> k \<noteq> NaN"
proof -
  assume "first_service_record df k = Some r"
  then obtain rest where "filter (\<lambda>r. cell_eq (r service_col) k) (rows df) = r # rest"
    by (auto simp: first_service_record_def split: list.splits)
  then have "r \<in> set (filter (\<lambda>r. cell_eq (r service_col) k) (rows df))" by simp
  then show ?thesis by (auto simp: cell_eq_def)
qed

lemma first_service_record_None:
  "first_service_record df k = None \<Longrightarrow> r \<in> set (rows df) \<Longrightarrow> \<not> cell_eq (r service_col) k"
  by (auto simp: first_service_record_def filter_empty_conv split: list.splits)

lemma transform_loop_lookup:
  "transform_loop df mc ss d = Inr t \<Longrightarrow>
   (k \<in> set ss \<longrightarrow> (\<exists>r. first_service_record df k = Some r \<and> map_of t k = Some (map r mc))) \<and>
   (k \<notin> set ss \<longrightarrow> map_of t k = map_of d k)"
proof (induction ss arbitrary: d)
  case Nil
  then show ?case by simp
next
  case (Cons s ss)
  from Cons.prems obtain r rest vs where
    f: "filter (\<lambda>r. cell_eq (r service_col) s) (rows df) = r # rest"
    and v: "row_values (columns df) r mc = Inr vs"
    and t: "transform_loop df mc ss (dict_set d s vs) = Inr t"
    by (auto split: list.splits sum.splits)
  have fs: "first_service_record df s = Some r"
    by (simp add: first_service_record_def f)
  have vs: "vs = map r mc" by (rule row_values_Inr[OF v])
  note ih = Cons.IH[OF t]
  show ?case
  proof (cases "k \<in> set ss")
    case True
    then show ?thesis using ih by simp
  next
    case False
    then have "map_of t k = map_of (dict_set d s vs) k" using ih by simp
    then show ?thesis
      using False fs vs by (auto simp: map_of_dict_set)
  qed
qed


lemma transform_data_lookup:
  assumes "transform_data df mc = Inr t"
  shows "map_of t k =
     (case first_service_record df k of
        Some r \<Rightarrow> Some (map r mc)
      | None \<Rightarrow> if k = Str service_col then Some (map Str mc) else None)"
proof -
  let ?ss = "map (\<lambda>r. r service_col) (rows df)"
  let ?d = "[(Str service_col, map Str mc)]"
  have t: "transform_loop df mc ?ss ?d = Inr t"
    using assms by (simp add: transform_data_def split: if_splits)
  note l = transform_loop_lookup[OF t, of k]
  show ?thesis
  proof (cases "first_service_record df k")
    case None
    then have "k \<notin> set ?ss" using l by auto
    then show ?thesis using l None by auto
  next
    case (Some r)
    then have "k \<in> set ?ss" using first_service_record_Some[OF Some] by auto
    then show ?thesis using l Some by auto
  qed
qed


subsection \<open>Filtering and ordering the rows\<close>






lemma map_snd_zip_same: "map snd (zip xs xs) = xs"
  by (induction xs) auto







subsection \<open>Selecting the columns\<close>


lemma map_of_keyed: "c \<in> set cs \<Longrightarrow> map_of (map (\<lambda>c. (c, h c)) cs) c = Some (h c)"
  by (induction cs) auto




subsection \<open>The order of the row labels\<close>








subsection \<open>The report in closed form\<close>




section \<open>Evaluated examples\<close>

lemma services_eval: "services_report df_services metric_order service_order = Inr out_services"
  by code_simp




section \<open>Shape and order of the output\<close>




lemma transform_Inr:
  assumes "snd (transform_to_column_format df) = Inr fr"
  shows "category_col \<in> set (columns df)"
    and "index fr = metrics"
    and "map fst (cols fr) = take 5 categories @ ''Edu+Img'' # drop 5 categories"
    and "\<forall>c \<in> set categories. map_of (cols fr) c = Some (base_col df c)"
    and "\<exists>s. add_series (base_col df ''Education'') (base_col df ''Images'') = Inr s \<and>
             cols fr = map (\<lambda>c. (c, base_col df c)) (take 5 categories) @
                        (''Edu+Img'', s) # map (\<lambda>c. (c, base_col df c)) (drop 5 categories)"
proof -
  show k: "category_col \<in> set (columns df)"
    using assms by (cases "category_col \<in> set (columns df)") (simp_all add: transform_key_missing)
  obtain s where s: "add_series (base_col df ''Education'') (base_col df ''Images'') = Inr s"
    and fr: "fr = \<lparr>index = metrics,
                   cols = map (\<lambda>c. (c, base_col df c)) (take 5 categories) @
                          (''Edu+Img'', s) # map (\<lambda>c. (c, base_col df c)) (drop 5 categories)\<rparr>"
    using assms transform_closed[OF k] by (auto split: sum.splits)
  show "index fr = metrics" by (simp add: fr)
  show "map fst (cols fr) = take 5 categories @ ''Edu+Img'' # drop 5 categories"
    by (simp add: fr comp_def)
  show "\<forall>c \<in> set categories. map_of (cols fr) c = Some (base_col df c)"
    by (simp add: fr categories_def)
  show "\<exists>s. add_series (base_col df ''Education'') (base_col df ''Images'') = Inr s \<and>
             cols fr = map (\<lambda>c. (c, base_col df c)) (take 5 categories) @
                        (''Edu+Img'', s) # map (\<lambda>c. (c, base_col df c)) (drop 5 categories)"
    using s fr by simp
qed








section \<open>Missing entities and metrics\<close>






lemma base_table_cols:
  assumes "category_col \<in> set (columns df)"
  shows "\<exists>fr. base_table df = (map (event_of df) categories, Inr fr) \<and> index fr = metrics \<and>
              (\<forall>c \<in> set categories. map_of (cols fr) c = Some (base_col df c))"
  unfolding base_table_closed[OF assms] by (simp add: map_of_keyed)















section \<open>Null normalisation\<close>
















section \<open>Duplicate keys\<close>

lemma keep_first_seen:
  "k \<in> set seen \<Longrightarrow> filter (\<lambda>r. r key = k \<and> b) (keep_first seen key rs) = []"
  by (induction rs arbitrary: seen) auto

lemma keep_first_unseen:
  "k \<notin> set seen \<Longrightarrow>
   filter (\<lambda>r. r key = k \<and> b) (keep_first seen key rs) = take 1 (filter (\<lambda>r. r key = k \<and> b) rs)"
proof (induction rs arbitrary: seen)
  case Nil
  then show ?case by simp
next
  case (Cons r rs)
  show ?case
  proof (cases "r key = k \<and> b")
    case True
    have "filter (\<lambda>r. r key = k \<and> b) (keep_first (k # seen) key rs) = []"
      by (rule keep_first_seen) simp
    then show ?thesis using True Cons.prems by simp
  next
    case False
    show ?thesis
    proof (cases b)
      case True
      with False have "r key \<noteq> k" by simp
      then show ?thesis using Cons by auto
    next
      case False
      then show ?thesis by simp
    qed
  qed
qed

lemma records_of_drop_duplicates:
  "records_of (drop_duplicates category_col df) c = take 1 (records_of df c)"
  using keep_first_unseen[of "Str c" "[]" category_col True "rows df"]
  by (simp add: records_of_def drop_duplicates_def)

lemma first_service_record_drop_duplicates:
  "first_service_record (drop_duplicates service_col df) s = first_service_record df s"
proof -
  have "filter (\<lambda>r. cell_eq (r service_col) s) (keep_first [] service_col (rows df)) =
        take 1 (filter (\<lambda>r. cell_eq (r service_col) s) (rows df))"
  proof -
    have e: "(\<lambda>r. cell_eq (r service_col) s) = (\<lambda>r. r service_col = s \<and> s \<noteq> NaN)"
      by (auto simp: cell_eq_def)
    show ?thesis
      unfolding e by (rule keep_first_unseen) simp
  qed
  then show ?thesis
    by (simp add: first_service_record_def drop_duplicates_def split: list.splits)
qed

lemma process_categories_drop_duplicates:
  "process_categories (drop_duplicates category_col df) ms cs fr = process_categories df ms cs fr"
proof (induction cs arbitrary: fr)
  case Nil
  then show ?case by simp
next
  case (Cons c cs)
  have cols: "columns (drop_duplicates category_col df) = columns df"
    by (simp add: drop_duplicates_def)
  have sel: "select_rows (drop_duplicates category_col df) category_col c =
        (if category_col \<in> set (columns df) then Inr (take 1 (records_of df c))
         else Inl (KeyError [category_col]))"
    using records_of_drop_duplicates[of df c]
    by (simp add: select_rows_def records_of_def cols)
  have sel': "select_rows df category_col c =
        (if category_col \<in> set (columns df) then Inr (records_of df c)
         else Inl (KeyError [category_col]))"
    by (simp add: select_rows_def records_of_def)
  show ?case
    by (cases "records_of df c") (simp_all add: sel sel' Cons.IH cols)
qed

lemma transform_drop_duplicates:
  "transform_to_column_format (drop_duplicates category_col df) = transform_to_column_format df"
  by (simp add: transform_to_column_format_def transform_with_def base_table_with_def
      process_categories_drop_duplicates)

lemma transform_loop_step:
  "transform_loop df mc (s # ss) d =
     (case first_service_record df s of
        None \<Rightarrow> Inl IndexError
      | Some r \<Rightarrow>
          (case row_values (columns df) r mc of
             Inl e \<Rightarrow> Inl e
           | Inr vs \<Rightarrow> transform_loop df mc ss (dict_set d s vs)))"
  by (simp add: first_service_record_def split: list.splits)

lemma transform_loop_same_records:
  assumes "\<And>s. first_service_record df' s = first_service_record df s" "columns df' = columns df"
  shows "transform_loop df' mc ss d = transform_loop df mc ss d"
proof (induction ss arbitrary: d)
  case Nil
  then show ?case by simp
next
  case (Cons s ss)
  show ?case
    unfolding transform_loop_step assms Cons.IH ..
qed

lemma transform_loop_keep_first:
  assumes "\<forall>s \<in> set seen. \<exists>r vs. first_service_record df s = Some r \<and>
              row_values (columns df) r mc = Inr vs \<and> map_of d s = Some vs"
  shows "transform_loop df mc (map (\<lambda>r. r service_col) (keep_first seen service_col rs)) d =
         transform_loop df mc (map (\<lambda>r. r service_col) rs) d"
  using assms
proof (induction rs arbitrary: seen d)
  case Nil
  then show ?case by simp
next
  case (Cons r rs)
  let ?s = "r service_col"
  show ?case
  proof (cases "?s \<in> set seen")
    case True
    then obtain r1 vs where f: "first_service_record df ?s = Some r1"
      "row_values (columns df) r1 mc = Inr vs" "map_of d ?s = Some vs"
      using Cons.prems by blast
    have "transform_loop df mc (map (\<lambda>r. r service_col) (r # rs)) d =
          transform_loop df mc (map (\<lambda>r. r service_col) rs) d"
      using f by (simp add: transform_loop_step dict_set_same del: transform_loop.simps)
    moreover have "transform_loop df mc (map (\<lambda>r. r service_col) (keep_first seen service_col rs)) d =
          transform_loop df mc (map (\<lambda>r. r service_col) rs) d"
      by (rule Cons.IH[OF Cons.prems])
    ultimately show ?thesis using True by simp
  next
    case False
    show ?thesis
    proof (cases "first_service_record df ?s")
      case None
      then show ?thesis using False
        by (simp add: transform_loop_step del: transform_loop.simps)
    next
      case (Some r1)
      show ?thesis
      proof (cases "row_values (columns df) r1 mc")
        case (Inl e)
        then show ?thesis using False Some
          by (simp add: transform_loop_step del: transform_loop.simps)
      next
        case (Inr vs)
        let ?d = "dict_set d ?s vs"
        have inv: "\<forall>s \<in> set (?s # seen). \<exists>r vs. first_service_record df s = Some r \<and>
              row_values (columns df) r mc = Inr vs \<and> map_of ?d s = Some vs"
        proof
          fix s assume s: "s \<in> set (?s # seen)"
          show "\<exists>r vs. first_service_record df s = Some r \<and>
              row_values (columns df) r mc = Inr vs \<and> map_of ?d s = Some vs"
          proof (cases "s = ?s")
            case True
            then show ?thesis using Some Inr by (auto simp: map_of_dict_set)
          next
            case False
            then have "s \<in> set seen" using s by simp
            then show ?thesis using Cons.prems False by (auto simp: map_of_dict_set)
          qed
        qed
        have "transform_loop df mc (map (\<lambda>r. r service_col) (keep_first (?s # seen) service_col rs)) ?d =
              transform_loop df mc (map (\<lambda>r. r service_col) rs) ?d"
          by (rule Cons.IH[OF inv])
        then show ?thesis using False Some Inr
          by (simp add: transform_loop_step del: transform_loop.simps)
      qed
    qed
  qed
qed

lemma transform_data_drop_duplicates:
  "transform_data (drop_duplicates service_col df) mc = transform_data df mc"
proof -
  let ?df' = "drop_duplicates service_col df"
  have cols: "columns ?df' = columns df" by (simp add: drop_duplicates_def)
  have rows: "rows ?df' = keep_first [] service_col (rows df)" by (simp add: drop_duplicates_def)
  have "transform_loop ?df' mc (map (\<lambda>r. r service_col) (rows ?df')) d =
        transform_loop df mc (map (\<lambda>r. r service_col) (rows df)) d" for d
  proof -
    have "transform_loop ?df' mc (map (\<lambda>r. r service_col) (rows ?df')) d =
          transform_loop df mc (map (\<lambda>r. r service_col) (rows ?df')) d"
      by (rule transform_loop_same_records[OF first_service_record_drop_duplicates cols])
    also have "\<dots> = transform_loop df mc (map (\<lambda>r. r service_col) (rows df)) d"
      unfolding rows by (rule transform_loop_keep_first) simp
    finally show ?thesis .
  qed
  then show ?thesis
    by (simp add: transform_data_def cols)
qed

lemma services_report_drop_duplicates:
  "services_report (drop_duplicates service_col df) mo so = services_report df mo so"
proof -
  have "get_metric_columns (drop_duplicates service_col df) = get_metric_columns df"
    by (simp add: get_metric_columns_def drop_duplicates_def)
  then show ?thesis
    unfolding services_report_def by (simp only: transform_data_drop_duplicates)
qed

lemma base_col_first_record:
  "records_of df c = r # rest \<Longrightarrow>
   base_col df c = map (\<lambda>m. fillna_cell (Num 0) (cell_of df r m)) metrics"
  by (simp add: base_col_def column_of_def)

text \<open>
  C7: when several records share a key, the column of that entity is computed from the
  first of them in sheet order, in both scripts (for the category script, whenever a table
  is returned), and the later ones are ignored: removing them from the sheet changes
  neither the result nor what is printed.
\<close>

theorem first_record_wins:
  "(category_col \<in> set (columns df) \<and> c \<in> set categories \<and> records_of df c = r # rest \<longrightarrow>
      (\<exists>log fr. base_table df = (log, Inr fr) \<and>
         map_of (cols fr) c = Some (map (\<lambda>m. fillna_cell (Num 0) (cell_of df r m)) metrics)) \<and>
      (\<forall>fr. snd (transform_to_column_format df) = Inr fr \<longrightarrow>
         map_of (cols fr) c = Some (map (\<lambda>m. fillna_cell (Num 0) (cell_of df r m)) metrics))) \<and>
   transform_to_column_format (drop_duplicates category_col df) = transform_to_column_format df \<and>
   (transform_data sheet mc = Inr t \<and> first_service_record sheet k = Some r' \<longrightarrow>
      map_of t k = Some (map r' mc)) \<and>
   services_report (drop_duplicates service_col sheet) mo so = services_report sheet mo so"
proof (intro conjI impI allI)
  assume a: "category_col \<in> set (columns df) \<and> c \<in> set categories \<and> records_of df c = r # rest"
  then have k: "category_col \<in> set (columns df)" and c: "c \<in> set categories"
    and r: "records_of df c = r # rest" by simp_all
  show "\<exists>log fr. base_table df = (log, Inr fr) \<and>
         map_of (cols fr) c = Some (map (\<lambda>m. fillna_cell (Num 0) (cell_of df r m)) metrics)"
    using base_table_cols[OF k] c base_col_first_record[OF r] by auto
  fix fr assume "snd (transform_to_column_format df) = Inr fr"
  then show "map_of (cols fr) c = Some (map (\<lambda>m. fillna_cell (Num 0) (cell_of df r m)) metrics)"
    using transform_Inr(4) c base_col_first_record[OF r] by auto
next
  show "transform_to_column_format (drop_duplicates category_col df) = transform_to_column_format df"
    by (rule transform_drop_duplicates)
next
  assume "transform_data sheet mc = Inr t \<and> first_service_record sheet k = Some r'"
  then show "map_of t k = Some (map r' mc)"
    using transform_data_lookup[of sheet mc t k] by simp
next
  show "services_report (drop_duplicates service_col sheet) mo so = services_report sheet mo so"
    by (rule services_report_drop_duplicates)
qed

lemma dup_facts:
  "category_col \<in> set (columns df_dup)" "''Games'' \<in> set categories"
  "records_of df_dup ''Games'' = [rec_games_first, rec_games_second]"
  "cell_of df_dup rec_games_first ''[TopLine_Revenue]'' = Num 100"
  "transform_data sheet_dup [''[TopLine_Revenue]''] = Inr t_dup"
  "first_service_record sheet_dup (Str ''IntimaX'') = Some rec_service_first"
  by (simp_all add: df_dup_def sheet_dup_def t_dup_def categories_def records_of_def cell_of_def
      rec_games_first_def rec_games_second_def rec_service_first_def rec_service_second_def
      category_col_def service_col_def transform_data_def first_service_record_def cell_eq_def)

theorem first_record_wins_witness:
  "category_col \<in> set (columns df_dup) \<and> ''Games'' \<in> set categories \<and>
   records_of df_dup ''Games'' = [rec_games_first, rec_games_second] \<and>
   cell_of df_dup rec_games_first ''[TopLine_Revenue]'' = Num 100 \<and>
   (\<exists>log fr. base_table df_dup = (log, Inr fr) \<and>
      map_of (cols fr) ''Games'' =
        Some (map (\<lambda>m. fillna_cell (Num 0) (cell_of df_dup rec_games_first m)) metrics)) \<and>
   transform_data sheet_dup [''[TopLine_Revenue]''] = Inr t_dup \<and>
   first_service_record sheet_dup (Str ''IntimaX'') = Some rec_service_first \<and>
   map_of t_dup (Str ''IntimaX'') = Some (map rec_service_first [''[TopLine_Revenue]''])"
  using first_record_wins[where df=df_dup and c="''Games''" and r=rec_games_first
      and rest="[rec_games_second]" and sheet=sheet_dup and mc="[''[TopLine_Revenue]'']"
      and t=t_dup and k="Str ''IntimaX''" and r'=rec_service_first]
    dup_facts
  by simp

section \<open>The default output path\<close>

lemma split_on_nonempty: "split_on c s \<noteq> []"
  by (induction s) (auto split: list.splits)

lemma split_on_no_sep: "x \<in> set (split_on c s) \<Longrightarrow> c \<notin> set x"
proof (induction s arbitrary: x)
  case Nil
  then show ?case by simp
next
  case (Cons a s)
  show ?case
  proof (cases "a = c")
    case True
    then show ?thesis using Cons by auto
  next
    case False
    obtain p ps where ps: "split_on c s = p # ps"
      using split_on_nonempty[of c s] by (cases "split_on c s") auto
    then have "x = a # p \<or> x \<in> set ps" using Cons.prems False by simp
    moreover have "c \<notin> set p" using Cons.IH[of p] ps by simp
    moreover have "x \<in> set ps \<Longrightarrow> c \<notin> set x" using Cons.IH[of x] ps by simp
    ultimately show ?thesis using False by auto
  qed
qed

lemma split_on_plain: "c \<notin> set x \<Longrightarrow> split_on c x = [x]"
  by (induction x) auto

lemma split_on_append: "c \<notin> set x \<Longrightarrow> split_on c (x @ c # rest) = x # split_on c rest"
  by (induction x) auto

lemma split_on_join:
  "ps \<noteq> [] \<Longrightarrow> \<forall>x \<in> set ps. c \<notin> set x \<Longrightarrow> split_on c (join_with c ps) = ps"
proof (induction c ps rule: join_with.induct)
  case (1 c)
  then show ?case by simp
next
  case (2 c x)
  then show ?case by (simp add: split_on_plain)
next
  case (3 c x y ys)
  then show ?case by (simp add: split_on_append)
qed

lemma wf_parse_path: "wf_path (parse_path s)"
  by (auto simp: wf_path_def parse_path_def path_root_def list_all_iff dest: split_on_no_sep)

lemma join_with_hd:
  "ps \<noteq> [] \<Longrightarrow> hd ps \<noteq> [] \<Longrightarrow> take 1 (join_with c ps) = [hd (hd ps)]"
proof (induction c ps rule: join_with.induct)
  case (1 c)
  then show ?case by simp
next
  case (2 c x)
  then show ?case by (cases x) auto
next
  case (3 c x y ys)
  then show ?case by (cases x) auto
qed

lemma parse_path_str:
  assumes "wf_path q" "parts q \<noteq> []"
  shows "parse_path (path_str q) = q"
proof -
  let ?j = "join_with CHR ''/'' (parts q)"
  have ok: "\<forall>x \<in> set (parts q). x \<noteq> [] \<and> x \<noteq> ''.'' \<and> CHR ''/'' \<notin> set x"
    using assms(1) by (simp add: wf_path_def list_all_iff)
  have h: "hd (parts q) \<in> set (parts q)" using assms(2) by simp
  then have hne: "hd (parts q) \<noteq> []" and hns: "CHR ''/'' \<notin> set (hd (parts q))"
    using ok by blast+
  then have c0: "hd (hd (parts q)) \<noteq> CHR ''/''"
    by (cases "hd (parts q)") auto
  have t: "take 1 ?j = [hd (hd (parts q))]"
    by (rule join_with_hd[OF assms(2) hne])
  have sp: "split_on CHR ''/'' ?j = parts q"
    by (rule split_on_join[OF assms(2)]) (use ok in blast)
  have keep: "filter (\<lambda>x. x \<noteq> [] \<and> x \<noteq> ''.'') (parts q) = parts q"
    using ok by (simp add: filter_id_conv)
  have s: "path_str q = root q @ ?j"
    using assms(2) by (simp add: path_str_def)
  from assms(1) consider "root q = []" | "root q = ''/''" | "root q = ''//''"
    by (auto simp: wf_path_def)
  then show ?thesis
  proof cases
    case 1
    have "path_root ?j = []" using t c0 by (simp add: path_root_def)
    then show ?thesis using 1 s sp keep by (simp add: parse_path_def)
  next
    case 2
    have "path_root (CHR ''/'' # ?j) = ''/''" using t c0 by (simp add: path_root_def)
    then show ?thesis using 2 s sp keep by (simp add: parse_path_def)
  next
    case 3
    have "path_root (CHR ''/'' # CHR ''/'' # ?j) = ''//''" using t c0 by (simp add: path_root_def)
    then show ?thesis using 3 s sp keep by (simp add: parse_path_def)
  qed
qed

lemma stem_no_sep: "c \<notin> set (path_name p) \<Longrightarrow> c \<notin> set (stem p)"
  by (auto simp: stem_def Let_def split: option.splits dest: in_set_takeD)

lemma path_name_no_sep: "wf_path p \<Longrightarrow> CHR ''/'' \<notin> set (path_name p)"
  by (auto simp: wf_path_def path_name_def list_all_iff)

lemma default_output_path:
  "default_output_file s =
     path_str \<lparr>root = root (parse_path s),
               parts = butlast (parts (parse_path s)) @ [stem (parse_path s) @ ''_output.xlsx'']\<rparr>"
proof -
  let ?n = "stem (parse_path s) @ ''_output.xlsx''"
  have ns: "CHR ''/'' \<notin> set ?n"
    using stem_no_sep[OF path_name_no_sep[OF wf_parse_path], of s] by simp
  then have "take 1 ?n \<noteq> ''/''"
    by (cases "stem (parse_path s)") auto
  moreover have "parts (parse_path ?n) = [?n]"
    using split_on_plain[OF ns] by (simp add: parse_path_def)
  ultimately have d: "default_output_file s =
      path_str ((parse_path s)\<lparr>parts := butlast (parts (parse_path s)) @ [?n]\<rparr>)"
    by (simp add: default_output_file_def joinpath_def parent_def Let_def)
  have e: "(parse_path s)\<lparr>parts := butlast (parts (parse_path s)) @ [?n]\<rparr> =
      \<lparr>root = root (parse_path s), parts = butlast (parts (parse_path s)) @ [?n]\<rparr>"
    by (rule path.equality) simp_all
  show ?thesis using d unfolding e .
qed

lemma wf_default_output:
  "wf_path \<lparr>root = root (parse_path s),
            parts = butlast (parts (parse_path s)) @ [stem (parse_path s) @ ''_output.xlsx'']\<rparr>"
proof -
  let ?n = "stem (parse_path s) @ ''_output.xlsx''"
  have ns: "CHR ''/'' \<notin> set ?n"
    using stem_no_sep[OF path_name_no_sep[OF wf_parse_path], of s] by simp
  have "?n \<noteq> []" "?n \<noteq> ''.''" by auto
  then show ?thesis
    using wf_parse_path[of s] ns
    by (auto simp: wf_path_def list_all_iff dest: in_set_butlastD)
qed

lemma suffix_output: "suffix \<lparr>root = r, parts = ps @ [st @ ''_output.xlsx'']\<rparr> = ''.xlsx''"
proof -
  let ?n = "st @ ''_output.xlsx''"
  have "takeWhile (\<lambda>c. c \<noteq> CHR ''.'') (rev ?n) = ''xslx''"
    by simp
  then have "rfind_dot ?n = Some (length st + 7)"
    by (simp add: rfind_dot_def)
  then show ?thesis
    by (simp add: suffix_def path_name_def Let_def)
qed

lemma category_main_saved:
  "saved (category_main [prog, input_file] w) = Some (f, fr) \<Longrightarrow> f = default_output_file input_file"
  by (auto simp: category_main_def failed_def Let_def split: sum.splits if_splits)

lemma services_main_saved:
  "saved (services_main [prog, input_file] w) = Some (f, t) \<Longrightarrow> f = default_output_file input_file"
  by (auto simp: services_main_def save_output_def failed_def Let_def split: sum.splits if_splits)

text \<open>
  C8 (amended): when the output path argument is omitted, both scripts write to the path
  whose directory is the directory of the input and whose file name is the stem of the
  input followed by \<open>_output.xlsx\<close>: the extension is always \<open>.xlsx\<close>, whatever
  the extension of the input.
\<close>

theorem default_output_location:
  "parent (parse_path (default_output_file input_file)) = parent (parse_path input_file) \<and>
   path_name (parse_path (default_output_file input_file)) =
     stem (parse_path input_file) @ ''_output.xlsx'' \<and>
   suffix (parse_path (default_output_file input_file)) = ''.xlsx'' \<and>
   (saved (category_main [prog, input_file] w) = Some (f, fr) \<longrightarrow>
      f = default_output_file input_file) \<and>
   (saved (services_main [prog, input_file] w) = Some (f', t) \<longrightarrow>
      f' = default_output_file input_file)"
proof -
  let ?q = "\<lparr>root = root (parse_path input_file),
             parts = butlast (parts (parse_path input_file)) @
                     [stem (parse_path input_file) @ ''_output.xlsx'']\<rparr>"
  have p: "parse_path (default_output_file input_file) = ?q"
    unfolding default_output_path by (rule parse_path_str[OF wf_default_output]) simp
  have "parent ?q = parent (parse_path input_file)"
    unfolding parent_def by (rule path.equality) simp_all
  moreover have "path_name ?q = stem (parse_path input_file) @ ''_output.xlsx''"
    by (simp add: path_name_def)
  moreover have "suffix ?q = ''.xlsx''"
    by (rule suffix_output)
  ultimately show ?thesis
    using category_main_saved services_main_saved unfolding p by blast
qed

lemma xlsm_default: "default_output_file ''reports/data.xlsm'' = ''reports/data_output.xlsx''"
  by code_simp

lemma xlsm_suffix: "suffix (parse_path ''reports/data.xlsm'') = ''.xlsm''"
  by code_simp

lemma xlsm_category_main:
  "category_main [''prog'', ''reports/data.xlsm''] (world_of ''reports/data.xlsm'' df_e2e) =
     \<lparr>exit_code = 0, saved = Some (''reports/data_output.xlsx'', fr_e2e)\<rparr>"
  by (simp add: category_main_def read_category_data_def world_of_def e2e_eval xlsm_default)

lemma df_services_key: "service_col \<in> set (columns df_services)"
  by (simp add: df_services_def)

lemma xlsm_services_main:
  "services_main [''prog'', ''reports/data.xlsm''] (world_of ''reports/data.xlsm'' df_services) =
     \<lparr>exit_code = 0, saved = Some (''reports/data_output.xlsx'', out_services)\<rparr>"
  by (simp add: services_main_def read_input_data_def save_output_def world_of_def services_eval
      xlsm_default df_services_key)

theorem default_output_location_witness:
  "saved (category_main [''prog'', ''reports/data.xlsm''] (world_of ''reports/data.xlsm'' df_e2e)) =
     Some (''reports/data_output.xlsx'', fr_e2e) \<and>
   saved (services_main [''prog'', ''reports/data.xlsm''] (world_of ''reports/data.xlsm'' df_services)) =
     Some (''reports/data_output.xlsx'', out_services) \<and>
   ''reports/data_output.xlsx'' = default_output_file ''reports/data.xlsm'' \<and>
   parent (parse_path (default_output_file ''reports/data.xlsm'')) =
     parent (parse_path ''reports/data.xlsm'') \<and>
   suffix (parse_path (default_output_file ''reports/data.xlsm'')) = ''.xlsx''"
  using default_output_location[where input_file="''reports/data.xlsm''" and prog="''prog''"
      and w="world_of ''reports/data.xlsm'' df_e2e" and f="''reports/data_output.xlsx''"
      and fr=fr_e2e]
    xlsm_category_main xlsm_services_main xlsm_default
  by simp

text \<open>
  C8 as stated fails: for an input with the extension \<open>.xlsm\<close> both scripts write to a
  file with the extension \<open>.xlsx\<close>.
\<close>

theorem extension_counterexample:
  "suffix (parse_path ''reports/data.xlsm'') = ''.xlsm'' \<and>
   default_output_file ''reports/data.xlsm'' = ''reports/data_output.xlsx'' \<and>
   category_main [''prog'', ''reports/data.xlsm''] (world_of ''reports/data.xlsm'' df_e2e) =
     \<lparr>exit_code = 0, saved = Some (''reports/data_output.xlsx'', fr_e2e)\<rparr> \<and>
   services_main [''prog'', ''reports/data.xlsm''] (world_of ''reports/data.xlsm'' df_services) =
     \<lparr>exit_code = 0, saved = Some (''reports/data_output.xlsx'', out_services)\<rparr>"
  by (simp add: xlsm_suffix xlsm_default xlsm_category_main xlsm_services_main)

end
